theory Spec2Isabelle
  imports Main "HOL-Library.Multiset"
begin

section \<open>Merge lattices of the sparse tensor algebra compiler\<close>

text \<open>
  A shallow embedding of \<^verbatim>\<open>src/lower/merge_lattice.cpp\<close>. Iterator handles
  (\<^verbatim>\<open>storage::Iterator\<close>) are an arbitrary type \<open>'i\<close>; their only query,
  \<^verbatim>\<open>isDense()\<close>, is a parameter \<open>isDense :: 'i \<Rightarrow> bool\<close> of every function that
  calls it, and their \<^verbatim>\<open>operator<\<close> is the order of a \<open>linorder\<close> where the code sorts.
  A failed \<^verbatim>\<open>taco_iassert\<close>, \<^verbatim>\<open>taco_not_supported_yet\<close> and a read past the end of a
  vector are error values: every fallible function returns \<open>error + 'a\<close>.
\<close>

subsection \<open>Errors\<close>

text \<open>One constructor for each \<^verbatim>\<open>taco_iassert\<close> of the file, in source order.\<close>

datatype assertion =
    MakeLatticeSize          \<comment> \<open>make: lattice.getSize() > 0\<close>
  | GetIteratorsSize         \<comment> \<open>getIterators: points.size() > 0\<close>
  | GetExprSize              \<comment> \<open>getExpr: points.size() > 0\<close>
  | DisjunctionAllPoints     \<comment> \<open>disjunction: allPoints.size() > 0\<close>
  | DisjunctionLatticeSize   \<comment> \<open>disjunction: lattice.getSize() > 0\<close>
  | MergeLeftIters           \<comment> \<open>merge: the assertion on aMergeIters\<close>
  | MergeRightIters          \<comment> \<open>merge: the assertion on bMergeIters\<close>
  | MergeResultSize          \<comment> \<open>merge: mergeIters.size() > 0\<close>
  | SimplifyInputSize        \<comment> \<open>simplify: iterators.size() > 0\<close>

datatype error =
    NotSupportedYet          \<comment> \<open>taco_not_supported_yet\<close>
  | IAssert assertion        \<comment> \<open>a taco_iassert whose condition is false\<close>
  | IndexOutOfBounds         \<comment> \<open>operator[] of a vector at an index \<ge> size()\<close>

definition bindE :: "error + 'a \<Rightarrow> ('a \<Rightarrow> error + 'b) \<Rightarrow> error + 'b" where
  "bindE m f = (case m of Inl e \<Rightarrow> Inl e | Inr x \<Rightarrow> f x)"

text \<open>A loop that pushes \<open>f x\<close> for every \<open>x\<close>, stopping at the first failure.\<close>

fun collect :: "('a \<Rightarrow> error + 'b) \<Rightarrow> 'a list \<Rightarrow> error + 'b list" where
  "collect f [] = Inr []"
| "collect f (x # xs) =
     (case f x of
        Inl e \<Rightarrow> Inl e
      | Inr y \<Rightarrow> (case collect f xs of Inl e \<Rightarrow> Inl e | Inr ys \<Rightarrow> Inr (y # ys)))"

subsection \<open>Expressions\<close>

type_synonym Var = string
type_synonym TensorBase = string

text \<open>The values of single and double precision literals are never inspected.\<close>

typedecl c_float
typedecl c_double

datatype Expr =
    Read TensorBase "Var list"
  | Neg Expr
  | Sqrt Expr
  | Add Expr Expr
  | Sub Expr Expr
  | Mul Expr Expr
  | Div Expr Expr
  | IntImm int
  | FloatImm c_float
  | DoubleImm c_double

subsection \<open>Lattice points\<close>

record 'i MergeLatticePoint =
  iterators :: "'i list"
  rangeIterators :: "'i list"
  mergeIterators :: "'i list"
  expr :: Expr

text \<open>
  Modelled from the spec: \<^verbatim>\<open>getDenseIterators\<close> is declared in \<^verbatim>\<open>iterators.h\<close>, which is
  not part of the sources at hand; it returns the dense iterators of a list, in order.
\<close>

definition getDenseIterators :: "('i \<Rightarrow> bool) \<Rightarrow> 'i list \<Rightarrow> 'i list" where
  "getDenseIterators isDense its = filter isDense its"

definition simplify :: "('i \<Rightarrow> bool) \<Rightarrow> 'i list \<Rightarrow> error + 'i list" where
  "simplify isDense its =
     (let simplifiedIterators = filter (\<lambda>iter. \<not> isDense iter) its in
      if length simplifiedIterators = 0 then
        (if \<not> length its > 0 then Inl (IAssert SimplifyInputSize)
         else Inr (simplifiedIterators @ [its ! 0]))
      else Inr simplifiedIterators)"

text \<open>The two constructors; both compute \<open>rangeIterators\<close> with \<open>simplify\<close>.\<close>

definition MergeLatticePoint2 ::
  "('i \<Rightarrow> bool) \<Rightarrow> 'i list \<Rightarrow> Expr \<Rightarrow> error + 'i MergeLatticePoint" where
  "MergeLatticePoint2 isDense its e =
     bindE (simplify isDense its) (\<lambda>r.
       Inr \<lparr>iterators = its, rangeIterators = r, mergeIterators = [], expr = e\<rparr>)"

definition MergeLatticePoint3 ::
  "('i \<Rightarrow> bool) \<Rightarrow> 'i list \<Rightarrow> 'i list \<Rightarrow> Expr \<Rightarrow> error + 'i MergeLatticePoint" where
  "MergeLatticePoint3 isDense its mits e =
     bindE (simplify isDense its) (\<lambda>r.
       Inr \<lparr>iterators = its, rangeIterators = r, mergeIterators = mits, expr = e\<rparr>)"

text \<open>The condition of the two assertions at the head of \<open>merge\<close>.\<close>

definition mergeItersAssertion :: "('i \<Rightarrow> bool) \<Rightarrow> 'i list \<Rightarrow> bool" where
  "mergeItersAssertion isDense ms =
     (length ms \<ge> 0 \<and> (length ms = 1 \<or> length (getDenseIterators isDense ms) = 0))"

definition merge ::
  "('i \<Rightarrow> bool) \<Rightarrow> (Expr \<Rightarrow> Expr \<Rightarrow> Expr) \<Rightarrow> 'i MergeLatticePoint \<Rightarrow> 'i MergeLatticePoint
     \<Rightarrow> bool \<Rightarrow> error + 'i MergeLatticePoint" where
  "merge isDense opr a b conjunctive =
     (let iters = iterators a @ iterators b;
          e = opr (expr a) (expr b);
          aMergeIters = mergeIterators a;
          bMergeIters = mergeIterators b
      in
      if \<not> mergeItersAssertion isDense aMergeIters then Inl (IAssert MergeLeftIters)
      else if \<not> mergeItersAssertion isDense bMergeIters then Inl (IAssert MergeRightIters)
      else if \<not> 0 < length aMergeIters then Inl IndexOutOfBounds
      else if \<not> 0 < length bMergeIters then Inl IndexOutOfBounds
      else
        let mergeIters =
          (if \<not> isDense (aMergeIters ! 0) \<and> \<not> isDense (bMergeIters ! 0) then
             aMergeIters @ bMergeIters
           else if isDense (aMergeIters ! 0) \<and> isDense (bMergeIters ! 0) then
             aMergeIters
           else if conjunctive then
             (if isDense (aMergeIters ! 0) then bMergeIters else aMergeIters)
           else
             (if isDense (aMergeIters ! 0) then aMergeIters else bMergeIters))
        in
        if \<not> length mergeIters > 0 then Inl (IAssert MergeResultSize)
        else MergeLatticePoint3 isDense iters mergeIters e)"

definition conjunctionP ::
  "('i \<Rightarrow> bool) \<Rightarrow> (Expr \<Rightarrow> Expr \<Rightarrow> Expr) \<Rightarrow> 'i MergeLatticePoint \<Rightarrow> 'i MergeLatticePoint
     \<Rightarrow> error + 'i MergeLatticePoint" where
  "conjunctionP isDense opr a b = merge isDense opr a b True"

definition disjunctionP ::
  "('i \<Rightarrow> bool) \<Rightarrow> (Expr \<Rightarrow> Expr \<Rightarrow> Expr) \<Rightarrow> 'i MergeLatticePoint \<Rightarrow> 'i MergeLatticePoint
     \<Rightarrow> error + 'i MergeLatticePoint" where
  "disjunctionP isDense opr a b = merge isDense opr a b False"

subsection \<open>Lattices\<close>

text \<open>A \<^verbatim>\<open>MergeLattice\<close> holds one vector of points; the empty one is the undefined lattice.\<close>

type_synonym 'i MergeLattice = "'i MergeLatticePoint list"

definition defined :: "'i MergeLattice \<Rightarrow> bool" where
  "defined l = (length l > 0)"

definition getSize :: "'i MergeLattice \<Rightarrow> nat" where
  "getSize l = length l"

text \<open>The iterators and the expression of a lattice are those of its first point.\<close>

definition getIterators :: "'i MergeLattice \<Rightarrow> error + 'i list" where
  "getIterators l =
     (if \<not> length l > 0 then Inl (IAssert GetIteratorsSize) else Inr (iterators (l ! 0)))"

definition getExpr :: "'i MergeLattice \<Rightarrow> error + Expr" where
  "getExpr l =
     (if \<not> length l > 0 then Inl (IAssert GetExprSize) else Inr (expr (l ! 0)))"

definition scale ::
  "('i \<Rightarrow> bool) \<Rightarrow> (Expr \<Rightarrow> Expr \<Rightarrow> Expr) \<Rightarrow> 'i MergeLattice \<Rightarrow> Expr \<Rightarrow> bool
     \<Rightarrow> error + 'i MergeLattice" where
  "scale isDense opr lattice s leftScale =
     collect (\<lambda>point.
        let e = expr point;
            scaledExpr = (if leftScale then opr s e else opr e s)
        in MergeLatticePoint3 isDense (iterators point) (mergeIterators point) scaledExpr)
       lattice"

definition unary ::
  "('i \<Rightarrow> bool) \<Rightarrow> (Expr \<Rightarrow> Expr) \<Rightarrow> 'i MergeLattice \<Rightarrow> error + 'i MergeLattice" where
  "unary isDense opr lattice =
     collect (\<lambda>point.
        MergeLatticePoint3 isDense (iterators point) (mergeIterators point) (opr (expr point)))
       lattice"

text \<open>The nested loops of both lattice operations: \<open>a\<close> outside, \<open>b\<close> inside.\<close>

definition allCombinations ::
  "('a \<Rightarrow> 'b \<Rightarrow> error + 'c) \<Rightarrow> 'a list \<Rightarrow> 'b list \<Rightarrow> error + 'c list" where
  "allCombinations f a b =
     collect (\<lambda>(aLatticePoint, bLatticePoint). f aLatticePoint bLatticePoint)
       (concat (map (\<lambda>aLatticePoint. map (Pair aLatticePoint) b) a))"

definition conjunction ::
  "('i \<Rightarrow> bool) \<Rightarrow> (Expr \<Rightarrow> Expr \<Rightarrow> Expr) \<Rightarrow> 'i MergeLattice \<Rightarrow> 'i MergeLattice
     \<Rightarrow> error + 'i MergeLattice" where
  "conjunction isDense opr a b = allCombinations (conjunctionP isDense opr) a b"

definition missingDenseIterator :: "'i list \<Rightarrow> 'i MergeLatticePoint \<Rightarrow> bool" where
  "missingDenseIterator denseIterators point =
     list_ex (\<lambda>denseIterator. denseIterator \<notin> set (iterators point)) denseIterators"

definition disjunction ::
  "('i \<Rightarrow> bool) \<Rightarrow> (Expr \<Rightarrow> Expr \<Rightarrow> Expr) \<Rightarrow> 'i MergeLattice \<Rightarrow> 'i MergeLattice
     \<Rightarrow> error + 'i MergeLattice" where
  "disjunction isDense opr a b =
     bindE (allCombinations (disjunctionP isDense opr) a b) (\<lambda>combined.
       let allPoints = combined @ a @ b in
       if \<not> length allPoints > 0 then Inl (IAssert DisjunctionAllPoints)
       else
         let denseIterators = getDenseIterators isDense (iterators (allPoints ! 0));
             points = filter (\<lambda>point. \<not> missingDenseIterator denseIterators point) allPoints
         in
         if \<not> length points > 0 then Inl (IAssert DisjunctionLatticeSize)
         else Inr points)"

text \<open>\<^verbatim>\<open>std::includes\<close> on two sorted ranges, with \<^verbatim>\<open>operator<\<close> as the comparison.\<close>

fun std_includes :: "'i::linorder list \<Rightarrow> 'i list \<Rightarrow> bool" where
  "std_includes xs [] = True"
| "std_includes [] (y # ys) = False"
| "std_includes (x # xs) (y # ys) =
     (if y < x then False
      else if \<not> x < y then std_includes xs ys
      else std_includes xs (y # ys))"

definition getSubLattice ::
  "'i::linorder MergeLattice \<Rightarrow> 'i MergeLatticePoint \<Rightarrow> 'i MergeLattice" where
  "getSubLattice l lp =
     (let lpIterators = sort (iterators lp) in
      filter (\<lambda>lq. std_includes lpIterators (sort (iterators lq))) l)"

subsection \<open>The builder\<close>

text \<open>
  The iteration schedule and the iterator registry are collaborators outside this file;
  the builder takes them as two functions, \<open>schedule\<close> for
  \<^verbatim>\<open>schedule.getTensorPath(expr)\<close> and \<open>iters\<close> for \<^verbatim>\<open>iterators[path.getStep(i)]\<close>.

  Modelled from the spec: the class \<^verbatim>\<open>TensorPath\<close> (\<^verbatim>\<open>tensor_path.h\<close>) is not part of the
  sources at hand; a tensor path is the sequence of index variables traversed when
  iterating a given tensor, and a step is a path and a position in it.
\<close>

record TensorPath =
  pathTensor :: TensorBase
  variables :: "Var list"

type_synonym TensorPathStep = "TensorPath \<times> nat"

text \<open>
  Modelled from the spec: \<^verbatim>\<open>util::locate\<close> (\<^verbatim>\<open>taco/util/collections.h\<close>, not part of the
  sources at hand) gives the position of the first occurrence of a value in a vector.
\<close>

fun locate :: "'a list \<Rightarrow> 'a \<Rightarrow> nat" where
  "locate [] v = 0"
| "locate (x # xs) v = (if x = v then 0 else Suc (locate xs v))"

text \<open>
  \<open>buildLattice\<close> is the visitor \<^verbatim>\<open>BuildMergeLattice\<close>: its field \<^verbatim>\<open>lattice\<close> is empty
  before every visit and holds the visit's result after it, so each visit is a function
  from the node to that result. A visit that assigns nothing leaves the empty lattice.
\<close>

fun buildLattice ::
  "('i \<Rightarrow> bool) \<Rightarrow> Var \<Rightarrow> (Expr \<Rightarrow> TensorPath) \<Rightarrow> (TensorPathStep \<Rightarrow> 'i) \<Rightarrow> Expr
     \<Rightarrow> error + 'i MergeLattice" where
  "buildLattice isDense indexVar schedule iters (Read t indexVars) =
     (if indexVar \<notin> set indexVars then Inr []
      else
        let path = schedule (Read t indexVars);
            i = locate (variables path) indexVar;
            iter = iters (path, i)
        in bindE (MergeLatticePoint3 isDense [iter] [iter] (Read t indexVars))
             (\<lambda>latticePoint. Inr [latticePoint]))"
| "buildLattice isDense indexVar schedule iters (Neg ea) =
     bindE (buildLattice isDense indexVar schedule iters ea) (\<lambda>a. unary isDense Neg a)"
| "buildLattice isDense indexVar schedule iters (Sqrt ea) =
     bindE (buildLattice isDense indexVar schedule iters ea) (\<lambda>a. unary isDense Sqrt a)"
| "buildLattice isDense indexVar schedule iters (Add ea eb) =
     bindE (buildLattice isDense indexVar schedule iters ea) (\<lambda>a.
     bindE (buildLattice isDense indexVar schedule iters eb) (\<lambda>b.
       if defined a \<and> defined b then disjunction isDense Add a b
       else if defined a then scale isDense Add a eb False
       else if defined b then scale isDense Add b ea True
       else Inr []))"
| "buildLattice isDense indexVar schedule iters (Sub ea eb) =
     bindE (buildLattice isDense indexVar schedule iters ea) (\<lambda>a.
     bindE (buildLattice isDense indexVar schedule iters eb) (\<lambda>b.
       if defined a \<and> defined b then disjunction isDense Sub a b
       else if defined a then scale isDense Sub a eb False
       else if defined b then scale isDense Sub b ea True
       else Inr []))"
| "buildLattice isDense indexVar schedule iters (Mul ea eb) =
     bindE (buildLattice isDense indexVar schedule iters ea) (\<lambda>a.
     bindE (buildLattice isDense indexVar schedule iters eb) (\<lambda>b.
       if defined a \<and> defined b then conjunction isDense Mul a b
       else if defined a then scale isDense Mul a eb False
       else if defined b then scale isDense Mul b ea True
       else Inr []))"
| "buildLattice isDense indexVar schedule iters (Div ea eb) =
     bindE (buildLattice isDense indexVar schedule iters ea) (\<lambda>a.
     bindE (buildLattice isDense indexVar schedule iters eb) (\<lambda>b.
       if defined a \<and> defined b then conjunction isDense Div a b
       else if defined a then scale isDense Div a eb False
       else if defined b then scale isDense Div b ea True
       else Inr []))"
| "buildLattice isDense indexVar schedule iters (IntImm n) = Inl NotSupportedYet"
| "buildLattice isDense indexVar schedule iters (FloatImm x) = Inl NotSupportedYet"
| "buildLattice isDense indexVar schedule iters (DoubleImm x) = Inl NotSupportedYet"

definition make ::
  "Expr \<Rightarrow> Var \<Rightarrow> (Expr \<Rightarrow> TensorPath) \<Rightarrow> (TensorPathStep \<Rightarrow> 'i) \<Rightarrow> ('i \<Rightarrow> bool)
     \<Rightarrow> error + 'i MergeLattice" where
  "make indexExpr indexVar schedule iters isDense =
     bindE (buildLattice isDense indexVar schedule iters indexExpr) (\<lambda>lattice.
       if \<not> length lattice > 0 then Inl (IAssert MakeLatticeSize) else Inr lattice)"

subsection \<open>Predicates of the specification\<close>

text \<open>
  The invariant of the merge iterators in the words of the specification: the list is a
  single dense iterator, or one or more sparse iterators.
\<close>

definition mergeItersInvariant :: "('i \<Rightarrow> bool) \<Rightarrow> 'i list \<Rightarrow> bool" where
  "mergeItersInvariant isDense ms =
     ((length ms = 1 \<and> isDense (ms ! 0)) \<or> (ms \<noteq> [] \<and> list_all (\<lambda>i. \<not> isDense i) ms))"

text \<open>
  A record is a lattice point of the program when a constructor can have returned it: its
  iterators are not empty and its range iterators are their simplification.
\<close>

definition constructed :: "('i \<Rightarrow> bool) \<Rightarrow> 'i MergeLatticePoint \<Rightarrow> bool" where
  "constructed isDense p =
     (MergeLatticePoint3 isDense (iterators p) (mergeIterators p) (expr p) = Inr p)"

text \<open>The value of the local variable \<^verbatim>\<open>mergeIters\<close> of \<open>merge\<close>.\<close>

definition mergedIters :: "('i \<Rightarrow> bool) \<Rightarrow> 'i list \<Rightarrow> 'i list \<Rightarrow> bool \<Rightarrow> 'i list" where
  "mergedIters isDense ma mb conjunctive =
     (if \<not> isDense (ma ! 0) \<and> \<not> isDense (mb ! 0) then ma @ mb
      else if isDense (ma ! 0) \<and> isDense (mb ! 0) then ma
      else if conjunctive then (if isDense (ma ! 0) then mb else ma)
      else (if isDense (ma ! 0) then ma else mb))"

text \<open>A constructed point whose merge iterators meet the invariant.\<close>

definition wellFormed :: "('i \<Rightarrow> bool) \<Rightarrow> 'i MergeLatticePoint \<Rightarrow> bool" where
  "wellFormed isDense p \<longleftrightarrow> constructed isDense p \<and> mergeItersInvariant isDense (mergeIterators p)"

text \<open>Every dense iterator of the first point is an iterator of every point.\<close>

definition denseKept :: "('i \<Rightarrow> bool) \<Rightarrow> 'i MergeLattice \<Rightarrow> bool" where
  "denseKept isDense l =
     list_all (\<lambda>d. list_all (\<lambda>p. d \<in> set (iterators p)) l)
       (getDenseIterators isDense (iterators (l ! 0)))"

text \<open>What holds of every lattice the builder makes, the undefined one included.\<close>

definition latticeOK :: "('i \<Rightarrow> bool) \<Rightarrow> 'i MergeLattice \<Rightarrow> bool" where
  "latticeOK isDense l \<longleftrightarrow> list_all (wellFormed isDense) l \<and> (l \<noteq> [] \<longrightarrow> denseKept isDense l)"

text \<open>The expression has an integer, single precision or double precision literal.\<close>

fun hasLiteral :: "Expr \<Rightarrow> bool" where
  "hasLiteral (Read t vs) = False"
| "hasLiteral (Neg a) = hasLiteral a"
| "hasLiteral (Sqrt a) = hasLiteral a"
| "hasLiteral (Add a b) = (hasLiteral a \<or> hasLiteral b)"
| "hasLiteral (Sub a b) = (hasLiteral a \<or> hasLiteral b)"
| "hasLiteral (Mul a b) = (hasLiteral a \<or> hasLiteral b)"
| "hasLiteral (Div a b) = (hasLiteral a \<or> hasLiteral b)"
| "hasLiteral (IntImm n) = True"
| "hasLiteral (FloatImm x) = True"
| "hasLiteral (DoubleImm x) = True"

subsection \<open>Example data\<close>

text \<open>
  Natural numbers as iterator handles: those from 10 on are dense. \<open>exA\<close> is the point
  of a read of a sparse tensor, \<open>exD\<close> that of a dense one, as the builder makes them.
\<close>

definition exDense :: "nat \<Rightarrow> bool" where
  "exDense n = (10 \<le> n)"

definition exA :: "nat MergeLatticePoint" where
  "exA = \<lparr>iterators = [1], rangeIterators = [1], mergeIterators = [1],
          expr = Read ''A'' [''i'']\<rparr>"

definition exD :: "nat MergeLatticePoint" where
  "exD = \<lparr>iterators = [10], rangeIterators = [10], mergeIterators = [10],
          expr = Read ''D'' [''i'']\<rparr>"

text \<open>
  A schedule whose path of a read lists the read's own index variables, and a registry
  that gives the levels of the tensor \<open>D\<close> dense iterators and all others sparse ones.
\<close>

definition exSchedule :: "Expr \<Rightarrow> TensorPath" where
  "exSchedule e =
     (case e of
        Read t vs \<Rightarrow> \<lparr>pathTensor = t, variables = vs\<rparr>
      | _ \<Rightarrow> \<lparr>pathTensor = [], variables = []\<rparr>)"

definition exIters :: "TensorPathStep \<Rightarrow> nat" where
  "exIters step = (if pathTensor (fst step) = ''D'' then 10 else 1) + snd step"

text \<open>
  The conjunction of \<open>exA\<close> with itself lists its iterator twice; \<open>exThrice\<close> is the top
  point of the lattice of \<open>A(i) + A(i) * A(i)\<close> when both reads of \<open>A\<close> have one iterator.
\<close>

definition exTwice :: "nat MergeLatticePoint" where
  "exTwice = \<lparr>iterators = [1, 1], rangeIterators = [1, 1], mergeIterators = [1, 1],
              expr = Mul (Read ''A'' [''i'']) (Read ''A'' [''i''])\<rparr>"

definition exThrice :: "nat MergeLatticePoint" where
  "exThrice = \<lparr>iterators = [1, 1, 1], rangeIterators = [1, 1, 1], mergeIterators = [1, 1, 1],
               expr = Add (Read ''A'' [''i''])
                        (Mul (Read ''A'' [''i'']) (Read ''A'' [''i'']))\<rparr>"

section \<open>Verification\<close>

subsection \<open>Auxiliary facts\<close>

lemma collect_Inl: "collect f xs = Inl e \<Longrightarrow> \<exists>x\<in>set xs. f x = Inl e"
  by (induction xs) (auto split: sum.splits)

lemma simplify_nonempty:
  "its \<noteq> [] \<Longrightarrow> simplify isDense its =
     Inr (if filter (\<lambda>i. \<not> isDense i) its = [] then [its ! 0] else filter (\<lambda>i. \<not> isDense i) its)"
  by (simp add: simplify_def Let_def)

lemma simplify_empty: "simplify isDense [] = Inl (IAssert SimplifyInputSize)"
  by (simp add: simplify_def)

lemma constructed_iff:
  "constructed isDense p \<longleftrightarrow>
     iterators p \<noteq> [] \<and> simplify isDense (iterators p) = Inr (rangeIterators p)"
  by (cases p; cases "iterators p = []")
     (auto simp: constructed_def MergeLatticePoint3_def bindE_def simplify_empty simplify_nonempty)

lemma MergeLatticePoint3_constructed:
  "MergeLatticePoint3 isDense its ms e = Inr p \<Longrightarrow> constructed isDense p"
  by (auto simp: constructed_def MergeLatticePoint3_def bindE_def split: sum.splits)

lemma MergeLatticePoint3_fields:
  "MergeLatticePoint3 isDense its ms e = Inr p \<Longrightarrow>
     iterators p = its \<and> mergeIterators p = ms \<and> expr p = e \<and> simplify isDense its = Inr (rangeIterators p)"
  by (auto simp: MergeLatticePoint3_def bindE_def split: sum.splits)

lemma MergeLatticePoint3_ok:
  "its \<noteq> [] \<Longrightarrow> \<exists>p. MergeLatticePoint3 isDense its ms e = Inr p"
  by (simp add: MergeLatticePoint3_def bindE_def simplify_nonempty)

lemma invariant_assertion:
  "mergeItersInvariant isDense ms \<longleftrightarrow> ms \<noteq> [] \<and> mergeItersAssertion isDense ms"
proof (cases ms)
  case Nil
  then show ?thesis by (simp add: mergeItersInvariant_def)
next
  case (Cons m ms')
  then show ?thesis
    by (cases ms')
       (auto simp: mergeItersInvariant_def mergeItersAssertion_def getDenseIterators_def
          list_all_iff filter_empty_conv)
qed

lemma invariant_nonempty: "mergeItersInvariant isDense ms \<Longrightarrow> ms \<noteq> []"
  by (auto simp: mergeItersInvariant_def)

lemma invariant_head_sparse:
  "mergeItersInvariant isDense ms \<Longrightarrow> \<not> isDense (ms ! 0) \<Longrightarrow> list_all (\<lambda>i. \<not> isDense i) ms"
  by (cases ms) (auto simp: mergeItersInvariant_def)

lemma mergedIters_invariant:
  assumes "mergeItersInvariant isDense ma" "mergeItersInvariant isDense mb"
  shows "mergeItersInvariant isDense (mergedIters isDense ma mb c)"
proof -
  have "mergeItersInvariant isDense (ma @ mb)" if "\<not> isDense (ma ! 0)" "\<not> isDense (mb ! 0)"
    using assms that invariant_head_sparse [of isDense ma] invariant_head_sparse [of isDense mb]
    by (auto simp: mergeItersInvariant_def)
  with assms show ?thesis by (auto simp: mergedIters_def)
qed

lemma merge_unfold:
  assumes "mergeItersInvariant isDense (mergeIterators a)"
    and "mergeItersInvariant isDense (mergeIterators b)"
  shows "merge isDense opr a b c =
     MergeLatticePoint3 isDense (iterators a @ iterators b)
       (mergedIters isDense (mergeIterators a) (mergeIterators b) c) (opr (expr a) (expr b))"
proof -
  have ne: "mergedIters isDense (mergeIterators a) (mergeIterators b) c \<noteq> []"
    by (rule invariant_nonempty [OF mergedIters_invariant [OF assms]])
  from assms have "mergeIterators a \<noteq> []" "mergeItersAssertion isDense (mergeIterators a)"
    "mergeIterators b \<noteq> []" "mergeItersAssertion isDense (mergeIterators b)"
    by (simp_all add: invariant_assertion)
  with ne show ?thesis
    by (simp add: merge_def Let_def mergedIters_def)
qed

lemma merge_wellFormed:
  assumes "wellFormed isDense a" "wellFormed isDense b"
  shows "\<exists>p. merge isDense opr a b c = Inr p \<and> wellFormed isDense p
           \<and> iterators p = iterators a @ iterators b
           \<and> mergeIterators p = mergedIters isDense (mergeIterators a) (mergeIterators b) c
           \<and> expr p = opr (expr a) (expr b)"
proof -
  from assms have inv: "mergeItersInvariant isDense (mergeIterators a)"
    "mergeItersInvariant isDense (mergeIterators b)" and ne: "iterators a @ iterators b \<noteq> []"
    by (simp_all add: wellFormed_def constructed_iff)
  from MergeLatticePoint3_ok [OF ne] obtain p where
    p: "MergeLatticePoint3 isDense (iterators a @ iterators b)
       (mergedIters isDense (mergeIterators a) (mergeIterators b) c) (opr (expr a) (expr b)) = Inr p"
    by blast
  from MergeLatticePoint3_fields [OF p] MergeLatticePoint3_constructed [OF p]
    mergedIters_invariant [OF inv, of c] p
  show ?thesis by (simp add: merge_unfold [OF inv] wellFormed_def)
qed

lemma exA_wellFormed: "wellFormed exDense exA"
  by (simp add: wellFormed_def constructed_def MergeLatticePoint3_def bindE_def simplify_def
      mergeItersInvariant_def exDense_def exA_def)

lemma exD_wellFormed: "wellFormed exDense exD"
  by (simp add: wellFormed_def constructed_def MergeLatticePoint3_def bindE_def simplify_def
      mergeItersInvariant_def exDense_def exD_def)

lemma bindE_Inr [simp]: "bindE (Inr x) f = f x"
  by (simp add: bindE_def)

lemma bindE_Inl [simp]: "bindE (Inl e) f = Inl e"
  by (simp add: bindE_def)

lemma collect_total:
  assumes "\<And>x. x \<in> set xs \<Longrightarrow> \<exists>y. f x = Inr y \<and> P x y"
  shows "\<exists>ys. collect f xs = Inr ys \<and> list_all2 P xs ys"
  using assms
proof (induction xs)
  case Nil
  then show ?case by simp
next
  case (Cons x xs)
  from Cons.prems [of x] obtain y where y: "f x = Inr y" "P x y" by auto
  from Cons.IH Cons.prems obtain ys where "collect f xs = Inr ys" "list_all2 P xs ys"
    by auto
  with y show ?case by simp
qed

lemma allCombinations_product:
  "allCombinations f a b = collect (\<lambda>(x, y). f x y) (List.product a b)"
  by (simp add: allCombinations_def product_concat_map)

lemma allCombinations_total:
  assumes "\<And>x y. x \<in> set a \<Longrightarrow> y \<in> set b \<Longrightarrow> \<exists>z. f x y = Inr z \<and> P x y z"
  shows "\<exists>zs. allCombinations f a b = Inr zs
           \<and> list_all2 (\<lambda>(x, y) z. f x y = Inr z \<and> P x y z) (List.product a b) zs"
  unfolding allCombinations_product
  by (rule collect_total) (use assms in auto)

lemma row_major_index:
  fixes i j n :: nat
  assumes "j < n"
  shows "(i * n + j) div n = i" and "(i * n + j) mod n = j"
  using assms by simp_all

lemma list_all2_product_nth:
  assumes "list_all2 Q (List.product a b) zs" and "i < length a" and "j < length b"
  shows "Q (a ! i, b ! j) (zs ! (i * length b + j))"
proof -
  have lt: "i * length b + j < length a * length b"
  proof -
    have "i * length b + j < i * length b + length b" using assms(3) by simp
    also have "\<dots> = Suc i * length b" by simp
    also have "\<dots> \<le> length a * length b" using assms(2) by (intro mult_le_mono1) simp
    finally show ?thesis .
  qed
  with assms(1) have "Q (List.product a b ! (i * length b + j)) (zs ! (i * length b + j))"
    by (simp add: list_all2_conv_all_nth)
  moreover have "(i * length b + j) div length b = i" "(i * length b + j) mod length b = j"
    using assms(3) by (rule row_major_index)+
  then have "List.product a b ! (i * length b + j) = (a ! i, b ! j)"
    using lt by (simp add: product_nth)
  ultimately show ?thesis by simp
qed

lemma merge_errors:
  "merge isDense opr a b c = Inl e \<Longrightarrow>
     e \<in> {IAssert MergeLeftIters, IAssert MergeRightIters, IndexOutOfBounds,
          IAssert MergeResultSize, IAssert SimplifyInputSize}"
  by (auto simp: merge_def Let_def MergeLatticePoint3_def bindE_def simplify_def
      split: if_splits sum.splits)

lemma not_missing_own:
  "\<not> missingDenseIterator (getDenseIterators isDense (iterators p)) p"
  by (simp add: missingDenseIterator_def getDenseIterators_def list_ex_iff)

lemma missingDenseIterator_iff:
  "missingDenseIterator ds p \<longleftrightarrow> \<not> set ds \<subseteq> set (iterators p)"
  by (auto simp: missingDenseIterator_def list_ex_iff)

lemma disjunction_unfold:
  assumes "allCombinations (disjunctionP isDense opr) a b = Inr combined"
    and "combined @ a @ b \<noteq> []"
  shows "disjunction isDense opr a b =
     Inr (filter (\<lambda>point. \<not> missingDenseIterator
            (getDenseIterators isDense (iterators ((combined @ a @ b) ! 0))) point)
          (combined @ a @ b))"
proof -
  let ?all = "combined @ a @ b"
  let ?ds = "getDenseIterators isDense (iterators (?all ! 0))"
  from assms(2) have "?all ! 0 \<in> set ?all" by (metis length_greater_0_conv nth_mem)
  then have "filter (\<lambda>point. \<not> missingDenseIterator ?ds point) ?all \<noteq> []"
    using not_missing_own [of isDense "?all ! 0"] by (auto simp: filter_empty_conv)
  with assms show ?thesis
    by (simp add: disjunction_def Let_def del: append_assoc)
qed

lemma filter_keeps_head:
  "xs \<noteq> [] \<Longrightarrow> P (xs ! 0) \<Longrightarrow> filter P xs ! 0 = xs ! 0"
  by (cases xs) auto

lemma disjunction_never_pruned_empty:
  "disjunction isDense opr a b \<noteq> Inl (IAssert DisjunctionLatticeSize)"
proof (cases "allCombinations (disjunctionP isDense opr) a b")
  case (Inl e)
  then obtain x y where "disjunctionP isDense opr x y = Inl e"
    unfolding allCombinations_product by (auto dest!: collect_Inl)
  then have "e \<noteq> IAssert DisjunctionLatticeSize"
    by (auto simp: disjunctionP_def dest: merge_errors)
  with Inl show ?thesis by (simp add: disjunction_def)
next
  case (Inr combined)
  show ?thesis
  proof (cases "combined @ a @ b = []")
    case True
    with Inr show ?thesis by (simp add: disjunction_def)
  next
    case False
    from disjunction_unfold [OF Inr False] show ?thesis by simp
  qed
qed

lemma denseKept_iff:
  "denseKept isDense l \<longleftrightarrow>
     (\<forall>d\<in>set (iterators (l ! 0)). isDense d \<longrightarrow> (\<forall>p\<in>set l. d \<in> set (iterators p)))"
  by (auto simp: denseKept_def getDenseIterators_def list_all_iff)

lemma denseKeptD:
  "denseKept isDense l \<Longrightarrow> d \<in> set (iterators (l ! 0)) \<Longrightarrow> isDense d \<Longrightarrow> p \<in> set l
     \<Longrightarrow> d \<in> set (iterators p)"
  by (simp add: denseKept_iff)

lemma list_all2_in_right:
  assumes "list_all2 Q xs ys" and "y \<in> set ys"
  shows "\<exists>x\<in>set xs. Q x y"
proof -
  from assms(2) obtain i where i: "i < length ys" "y = ys ! i" by (auto simp: in_set_conv_nth)
  with assms(1) have "Q (xs ! i) y" "i < length xs" by (auto simp: list_all2_conv_all_nth)
  then show ?thesis by (metis nth_mem)
qed

lemma list_all2_head:
  assumes "list_all2 Q xs ys" and "xs \<noteq> []"
  shows "Q (xs ! 0) (ys ! 0)"
  using assms by (cases xs; cases ys) auto

lemma rebuilt_point:
  assumes "wellFormed isDense p"
  shows "\<exists>q. MergeLatticePoint3 isDense (iterators p) (mergeIterators p) e = Inr q
           \<and> wellFormed isDense q \<and> iterators q = iterators p
           \<and> mergeIterators q = mergeIterators p \<and> expr q = e"
proof -
  from assms have "iterators p \<noteq> []" by (simp add: wellFormed_def constructed_iff)
  from MergeLatticePoint3_ok [OF this] obtain q where
    q: "MergeLatticePoint3 isDense (iterators p) (mergeIterators p) e = Inr q" by blast
  from MergeLatticePoint3_fields [OF q] MergeLatticePoint3_constructed [OF q] assms q
  show ?thesis by (simp add: wellFormed_def)
qed

lemma rebuilt_lattice:
  assumes "latticeOK isDense l"
  shows "\<exists>l'. collect (\<lambda>p. MergeLatticePoint3 isDense (iterators p) (mergeIterators p) (g p)) l
             = Inr l'
           \<and> latticeOK isDense l' \<and> length l' = length l
           \<and> list_all2 (\<lambda>p q. iterators q = iterators p \<and> mergeIterators q = mergeIterators p
                 \<and> expr q = g p) l l'"
proof -
  let ?f = "\<lambda>p. MergeLatticePoint3 isDense (iterators p) (mergeIterators p) (g p)"
  let ?P = "\<lambda>p q. wellFormed isDense q \<and> iterators q = iterators p
              \<and> mergeIterators q = mergeIterators p \<and> expr q = g p"
  have "\<exists>l'. collect ?f l = Inr l' \<and> list_all2 ?P l l'"
  proof (rule collect_total)
    fix p assume "p \<in> set l"
    with assms have "wellFormed isDense p" by (simp add: latticeOK_def list_all_iff)
    from rebuilt_point [OF this, of "g p"] show "\<exists>q. ?f p = Inr q \<and> ?P p q" .
  qed
  then obtain l' where l': "collect ?f l = Inr l'" "list_all2 ?P l l'" by blast
  have len: "length l' = length l" using l'(2) by (simp add: list_all2_lengthD)
  have wf: "list_all (wellFormed isDense) l'"
    using l'(2) by (auto simp: list_all_iff dest: list_all2_in_right)
  have kept: "denseKept isDense l'" if "l' \<noteq> []"
  proof -
    from that len have ne: "l \<noteq> []" by auto
    with assms have k: "denseKept isDense l" by (simp add: latticeOK_def)
    from list_all2_head [OF l'(2) ne] have h: "iterators (l' ! 0) = iterators (l ! 0)" by simp
    show ?thesis
      unfolding denseKept_iff
    proof (intro ballI impI)
      fix d q assume d: "d \<in> set (iterators (l' ! 0))" "isDense d" and q: "q \<in> set l'"
      from list_all2_in_right [OF l'(2) q] obtain p where "p \<in> set l" "iterators q = iterators p"
        by auto
      with denseKeptD [OF k _ d(2), of p] d(1) h show "d \<in> set (iterators q)" by simp
    qed
  qed
  from l' wf kept len show ?thesis
    by (auto simp: latticeOK_def elim: list_all2_mono)
qed

lemma unary_ok:
  assumes "latticeOK isDense l"
  shows "\<exists>l'. unary isDense opr l = Inr l' \<and> latticeOK isDense l' \<and> length l' = length l"
  using rebuilt_lattice [OF assms, of "\<lambda>p. opr (expr p)"] by (auto simp: unary_def)

lemma scale_ok:
  assumes "latticeOK isDense l"
  shows "\<exists>l'. scale isDense opr l s leftScale = Inr l' \<and> latticeOK isDense l'
           \<and> length l' = length l"
  using rebuilt_lattice [OF assms, of "\<lambda>p. if leftScale then opr s (expr p) else opr (expr p) s"]
  by (auto simp: scale_def Let_def)

lemma combinations_ok:
  assumes "list_all (wellFormed isDense) a" and "list_all (wellFormed isDense) b"
  shows "\<exists>l. allCombinations (\<lambda>x y. merge isDense opr x y c) a b = Inr l
           \<and> list_all (wellFormed isDense) l
           \<and> list_all2 (\<lambda>(x, y) p. merge isDense opr x y c = Inr p
                 \<and> iterators p = iterators x @ iterators y) (List.product a b) l"
proof -
  let ?P = "\<lambda>x y p. wellFormed isDense p \<and> iterators p = iterators x @ iterators y"
  have "\<exists>l. allCombinations (\<lambda>x y. merge isDense opr x y c) a b = Inr l
     \<and> list_all2 (\<lambda>(x, y) p. merge isDense opr x y c = Inr p \<and> ?P x y p) (List.product a b) l"
  proof (rule allCombinations_total)
    fix x y assume "x \<in> set a" "y \<in> set b"
    with assms have "wellFormed isDense x" "wellFormed isDense y" by (simp_all add: list_all_iff)
    from merge_wellFormed [OF this, of opr c]
    show "\<exists>p. merge isDense opr x y c = Inr p \<and> ?P x y p" by blast
  qed
  then obtain l where l: "allCombinations (\<lambda>x y. merge isDense opr x y c) a b = Inr l"
    "list_all2 (\<lambda>(x, y) p. merge isDense opr x y c = Inr p \<and> ?P x y p) (List.product a b) l"
    by blast
  have "list_all (wellFormed isDense) l"
    using l(2) by (auto simp: list_all_iff dest: list_all2_in_right)
  moreover have "list_all2 (\<lambda>(x, y) p. merge isDense opr x y c = Inr p
                 \<and> iterators p = iterators x @ iterators y) (List.product a b) l"
    using l(2) by (rule list_all2_mono) auto
  ultimately show ?thesis using l(1) by blast
qed

lemma product_nonempty: "a \<noteq> [] \<Longrightarrow> b \<noteq> [] \<Longrightarrow> List.product a b \<noteq> []"
  by (cases a; cases b) auto

lemma product_head: "a \<noteq> [] \<Longrightarrow> b \<noteq> [] \<Longrightarrow> List.product a b ! 0 = (a ! 0, b ! 0)"
  by (cases a; cases b) auto

lemma conjunction_ok:
  assumes "latticeOK isDense a" and "latticeOK isDense b" and "a \<noteq> []" and "b \<noteq> []"
  shows "\<exists>l. conjunction isDense opr a b = Inr l \<and> latticeOK isDense l \<and> l \<noteq> []"
proof -
  from assms have wf: "list_all (wellFormed isDense) a" "list_all (wellFormed isDense) b"
    and ka: "denseKept isDense a" and kb: "denseKept isDense b"
    by (simp_all add: latticeOK_def)
  let ?Q = "\<lambda>(x, y) p. merge isDense opr x y True = Inr p
              \<and> iterators p = iterators x @ iterators y"
  from combinations_ok [OF wf, of opr True] obtain l where
    l: "allCombinations (\<lambda>x y. merge isDense opr x y True) a b = Inr l"
       "list_all (wellFormed isDense) l" "list_all2 ?Q (List.product a b) l"
    by blast
  have ne: "l \<noteq> []"
  proof
    assume "l = []"
    with l(3) have "List.product a b = []" by (simp only: list_all2_Nil2)
    with product_nonempty [OF assms(3,4)] show False by contradiction
  qed
  from list_all2_head [OF l(3) product_nonempty [OF assms(3,4)]]
  have top: "iterators (l ! 0) = iterators (a ! 0) @ iterators (b ! 0)"
    by (simp add: product_head [OF assms(3,4)])
  have "denseKept isDense l"
    unfolding denseKept_iff
  proof (intro ballI impI)
    fix d p assume d: "d \<in> set (iterators (l ! 0))" "isDense d" and p: "p \<in> set l"
    from list_all2_in_right [OF l(3) p] obtain x y where
      xy: "x \<in> set a" "y \<in> set b" "iterators p = iterators x @ iterators y" by auto
    from d top have "d \<in> set (iterators (a ! 0)) \<or> d \<in> set (iterators (b ! 0))" by simp
    then have "d \<in> set (iterators x) \<or> d \<in> set (iterators y)"
      using denseKeptD [OF ka _ d(2) xy(1)] denseKeptD [OF kb _ d(2) xy(2)] by blast
    with xy(3) show "d \<in> set (iterators p)" by simp
  qed
  then have "latticeOK isDense l" using l(2) by (simp add: latticeOK_def)
  moreover have "conjunction isDense opr a b = Inr l"
    using l(1) by (simp add: conjunction_def conjunctionP_def [abs_def])
  ultimately show ?thesis using ne by blast
qed

lemma disjunction_ok:
  assumes "latticeOK isDense a" and "latticeOK isDense b" and "a \<noteq> []" and "b \<noteq> []"
  shows "\<exists>l. disjunction isDense opr a b = Inr l \<and> latticeOK isDense l \<and> l \<noteq> []"
proof -
  from assms have wf: "list_all (wellFormed isDense) a" "list_all (wellFormed isDense) b"
    by (simp_all add: latticeOK_def)
  from combinations_ok [OF wf, of opr False] obtain combined where
    c: "allCombinations (disjunctionP isDense opr) a b = Inr combined"
       "list_all (wellFormed isDense) combined"
    by (auto simp: disjunctionP_def [abs_def])
  let ?all = "combined @ a @ b"
  let ?ds = "getDenseIterators isDense (iterators (?all ! 0))"
  let ?l = "filter (\<lambda>point. \<not> missingDenseIterator ?ds point) ?all"
  from assms(3) have all_ne: "?all \<noteq> []" by simp
  from disjunction_unfold [OF c(1) all_ne] have res: "disjunction isDense opr a b = Inr ?l" .
  have keep: "\<not> missingDenseIterator ?ds (?all ! 0)" by (rule not_missing_own)
  from all_ne have "?all ! 0 \<in> set ?all" by (metis length_greater_0_conv nth_mem)
  with keep have ne: "?l \<noteq> []" by (auto simp: filter_empty_conv)
  have top: "?l ! 0 = ?all ! 0" using all_ne keep by (rule filter_keeps_head)
  have "list_all (wellFormed isDense) ?l"
    using wf c(2) by (auto simp: list_all_iff)
  moreover have "denseKept isDense ?l"
    unfolding denseKept_iff top
    by (auto simp: missingDenseIterator_iff getDenseIterators_def)
  ultimately show ?thesis using res ne by (auto simp: latticeOK_def)
qed

lemma latticeOK_Nil: "latticeOK isDense []"
  by (simp add: latticeOK_def)

lemma read_point:
  "MergeLatticePoint3 isDense [iter] [iter] e =
     Inr \<lparr>iterators = [iter], rangeIterators = [iter], mergeIterators = [iter], expr = e\<rparr>"
  by (simp add: MergeLatticePoint3_def simplify_def)

lemma read_point_ok:
  "latticeOK isDense
     [\<lparr>iterators = [iter], rangeIterators = [iter], mergeIterators = [iter], expr = e\<rparr>]"
  by (simp add: latticeOK_def denseKept_iff wellFormed_def constructed_def read_point
      mergeItersInvariant_def)

lemma binary_ok:
  assumes "latticeOK isDense a" and "latticeOK isDense b"
    and "both = disjunction isDense opr \<or> both = conjunction isDense opr"
  shows "\<exists>l. (if defined a \<and> defined b then both a b
              else if defined a then scale isDense opr a eb False
              else if defined b then scale isDense opr b ea True
              else Inr []) = Inr l \<and> latticeOK isDense l"
proof (cases "defined a \<and> defined b")
  case True
  then have "a \<noteq> []" "b \<noteq> []" by (simp_all add: defined_def)
  from disjunction_ok [OF assms(1,2) this, of opr] conjunction_ok [OF assms(1,2) this, of opr]
    assms(3) True
  show ?thesis by auto
next
  case False
  with scale_ok [OF assms(1), of opr eb False] scale_ok [OF assms(2), of opr ea True]
  show ?thesis by (auto simp: latticeOK_Nil)
qed

lemma unary_step:
  assumes "(lit \<longrightarrow> ra = Inl NotSupportedYet)
           \<and> (\<not> lit \<longrightarrow> (\<exists>l. ra = Inr l \<and> latticeOK isDense l))"
  shows "(lit \<longrightarrow> bindE ra (\<lambda>a. unary isDense opr a) = Inl NotSupportedYet)
         \<and> (\<not> lit \<longrightarrow> (\<exists>l. bindE ra (\<lambda>a. unary isDense opr a) = Inr l \<and> latticeOK isDense l))"
proof (cases lit)
  case True
  with assms show ?thesis by simp
next
  case False
  with assms obtain l where l: "ra = Inr l" "latticeOK isDense l" by blast
  from unary_ok [OF l(2), of opr] l(1) False show ?thesis by auto
qed

lemma binary_step:
  assumes a: "(lita \<longrightarrow> ra = Inl NotSupportedYet)
           \<and> (\<not> lita \<longrightarrow> (\<exists>l. ra = Inr l \<and> latticeOK isDense l))"
    and b: "(litb \<longrightarrow> rb = Inl NotSupportedYet)
           \<and> (\<not> litb \<longrightarrow> (\<exists>l. rb = Inr l \<and> latticeOK isDense l))"
    and both: "both = disjunction isDense opr \<or> both = conjunction isDense opr"
    and r: "r = bindE ra (\<lambda>a. bindE rb (\<lambda>b.
              if defined a \<and> defined b then both a b
              else if defined a then scale isDense opr a eb False
              else if defined b then scale isDense opr b ea True
              else Inr []))"
  shows "(lita \<or> litb \<longrightarrow> r = Inl NotSupportedYet)
         \<and> (\<not> (lita \<or> litb) \<longrightarrow> (\<exists>l. r = Inr l \<and> latticeOK isDense l))"
proof (cases lita)
  case True
  with a r show ?thesis by simp
next
  case na: False
  with a obtain la where la: "ra = Inr la" "latticeOK isDense la" by blast
  show ?thesis
  proof (cases litb)
    case True
    with b la r na show ?thesis by simp
  next
    case False
    with b obtain lb where lb: "rb = Inr lb" "latticeOK isDense lb" by blast
    from binary_ok [OF la(2) lb(2) both, of eb ea] obtain l where
      "(if defined la \<and> defined lb then both la lb
        else if defined la then scale isDense opr la eb False
        else if defined lb then scale isDense opr lb ea True
        else Inr []) = Inr l" "latticeOK isDense l" by blast
    with la(1) lb(1) r na False show ?thesis by simp
  qed
qed

lemma buildLattice_result:
  "(hasLiteral e \<longrightarrow> buildLattice isDense indexVar schedule iters e = Inl NotSupportedYet)
   \<and> (\<not> hasLiteral e \<longrightarrow>
        (\<exists>l. buildLattice isDense indexVar schedule iters e = Inr l \<and> latticeOK isDense l))"
proof (induction e)
  case (Read t vs)
  show ?case by (simp add: Let_def read_point read_point_ok latticeOK_Nil)
next
  case (Neg e)
  from unary_step [OF this, of Neg] show ?case by simp
next
  case (Sqrt e)
  from unary_step [OF this, of Sqrt] show ?case by simp
next
  case (Add e1 e2)
  from binary_step [OF this, of "disjunction isDense Add" Add _ e2 e1] show ?case by simp
next
  case (Sub e1 e2)
  from binary_step [OF this, of "disjunction isDense Sub" Sub _ e2 e1] show ?case by simp
next
  case (Mul e1 e2)
  from binary_step [OF this, of "conjunction isDense Mul" Mul _ e2 e1] show ?case by simp
next
  case (Div e1 e2)
  from binary_step [OF this, of "conjunction isDense Div" Div _ e2 e1] show ?case by simp
qed simp_all

lemma disjunction_denseKept:
  assumes "disjunction isDense opr a b = Inr l"
  shows "denseKept isDense l"
proof (cases "allCombinations (disjunctionP isDense opr) a b")
  case (Inl e)
  with assms show ?thesis by (simp add: disjunction_def)
next
  case (Inr combined)
  let ?all = "combined @ a @ b"
  let ?ds = "getDenseIterators isDense (iterators (?all ! 0))"
  have ne: "?all \<noteq> []"
  proof
    assume "?all = []"
    with Inr assms show False by (simp add: disjunction_def)
  qed
  from disjunction_unfold [OF Inr ne] assms
  have l: "l = filter (\<lambda>point. \<not> missingDenseIterator ?ds point) ?all" by simp
  have "l ! 0 = ?all ! 0"
    unfolding l using ne not_missing_own by (rule filter_keeps_head)
  then show ?thesis
    unfolding denseKept_iff
    by (auto simp: l missingDenseIterator_iff getDenseIterators_def)
qed

lemma make_result:
  assumes "make e indexVar schedule iters isDense = Inr l"
  shows "buildLattice isDense indexVar schedule iters e = Inr l \<and> l \<noteq> [] \<and> latticeOK isDense l"
proof -
  from assms have b: "buildLattice isDense indexVar schedule iters e = Inr l" and ne: "l \<noteq> []"
    by (auto simp: make_def bindE_def split: sum.splits if_splits)
  with buildLattice_result [of e isDense indexVar schedule iters] show ?thesis
    by (cases "hasLiteral e") auto
qed

lemma exAddAD:
  "make (Add (Read ''A'' [''i'']) (Read ''D'' [''i''])) ''i'' exSchedule exIters exDense =
     Inr [\<lparr>iterators = [1, 10], rangeIterators = [1], mergeIterators = [10],
            expr = Add (Read ''A'' [''i'']) (Read ''D'' [''i''])\<rparr>, exD]"
  by (simp add: make_def Let_def exSchedule_def exIters_def exDense_def exD_def
      MergeLatticePoint3_def simplify_def defined_def disjunction_def disjunctionP_def
      allCombinations_def merge_def mergeItersAssertion_def getDenseIterators_def
      missingDenseIterator_def)

lemma exMergeAD:
  "merge exDense Add exA exD False =
     Inr \<lparr>iterators = [1, 10], rangeIterators = [1], mergeIterators = [10],
          expr = Add (Read ''A'' [''i'']) (Read ''D'' [''i''])\<rparr>"
  by (simp add: Let_def exDense_def exA_def exD_def MergeLatticePoint3_def simplify_def
      merge_def mergeItersAssertion_def getDenseIterators_def)

lemma exDisjAD:
  "disjunction exDense Add [exA] [exD] =
     Inr [\<lparr>iterators = [1, 10], rangeIterators = [1], mergeIterators = [10],
            expr = Add (Read ''A'' [''i'']) (Read ''D'' [''i''])\<rparr>, exD]"
  by (simp add: Let_def exDense_def exA_def exD_def
      MergeLatticePoint3_def simplify_def disjunction_def disjunctionP_def
      allCombinations_def merge_def mergeItersAssertion_def getDenseIterators_def
      missingDenseIterator_def)

lemma collect_list_all2:
  "collect f xs = Inr ys \<Longrightarrow> list_all2 (\<lambda>x y. f x = Inr y) xs ys"
proof (induction xs arbitrary: ys)
  case Nil
  then show ?case by simp
next
  case (Cons x xs)
  then show ?case by (auto split: sum.splits)
qed

lemma exConjADD:
  "conjunction exDense Mul [exA, exD] [exD] =
     Inr [\<lparr>iterators = [1, 10], rangeIterators = [1], mergeIterators = [1],
            expr = Mul (Read ''A'' [''i'']) (Read ''D'' [''i''])\<rparr>,
          \<lparr>iterators = [10, 10], rangeIterators = [10], mergeIterators = [10],
            expr = Mul (Read ''D'' [''i'']) (Read ''D'' [''i''])\<rparr>]"
  by (simp add: Let_def exDense_def exA_def exD_def
      MergeLatticePoint3_def simplify_def conjunction_def conjunctionP_def
      allCombinations_def merge_def mergeItersAssertion_def getDenseIterators_def)

lemma mset_subset_drop_absent:
  "x \<notin># A \<Longrightarrow> A \<subseteq># add_mset x B \<Longrightarrow> A \<subseteq># B"
  by (metis Diff_eq_empty_iff_mset minus_add_mset_if_not_in_lhs)

lemma mset_subset_add_right:
  "A \<subseteq># B \<Longrightarrow> A \<subseteq># add_mset x B"
  by (meson multi_psub_of_add_self subset_mset.dual_order.strict_implies_order
      subset_mset.dual_order.strict_trans2)

lemma mset_subset_member_absent:
  "x \<in># A \<Longrightarrow> x \<notin># B \<Longrightarrow> \<not> A \<subseteq># B"
  by (metis mset_subset_eqD)

lemma distinct_mset_subset_iff:
  assumes "distinct q"
  shows "mset q \<subseteq># mset p \<longleftrightarrow> set q \<subseteq> set p"
proof
  assume "mset q \<subseteq># mset p"
  from set_mset_mono [OF this] show "set q \<subseteq> set p" by simp
next
  assume s: "set q \<subseteq> set p"
  show "mset q \<subseteq># mset p"
  proof (rule mset_subset_eqI)
    fix a
    show "count (mset q) a \<le> count (mset p) a"
    proof (cases "a \<in> set q")
      case True
      with s have "a \<in> set p" by blast
      then have "1 \<le> count (mset p) a" by (simp add: Suc_le_eq)
      moreover from assms True have "count (mset q) a = 1"
        by (simp add: distinct_count_atmost_1)
      ultimately show ?thesis by linarith
    next
      case False
      then have "count (mset q) a = 0" by (metis count_mset_0_iff)
      then show ?thesis by linarith
    qed
  qed
qed

lemma std_includes_mset:
  "sorted xs \<Longrightarrow> sorted ys \<Longrightarrow> std_includes xs ys \<longleftrightarrow> mset ys \<subseteq># mset xs"
proof (induction xs ys rule: std_includes.induct)
  case (1 xs)
  then show ?case by simp
next
  case (2 y ys)
  then show ?case by simp
next
  case (3 x xs y ys)
  from "3.prems" have sx: "sorted xs" "\<forall>z\<in>set xs. x \<le> z"
    and sy: "sorted ys" "\<forall>z\<in>set ys. y \<le> z" by simp_all
  consider (lt) "y < x" | (eq) "x = y" | (gt) "x < y" by (rule linorder_cases) auto
  then show ?case
  proof cases
    case lt
    with sx(2) have "y \<notin># mset (x # xs)" by auto
    moreover have "y \<in># mset (y # ys)" by simp
    ultimately have "\<not> mset (y # ys) \<subseteq># mset (x # xs)"
      by (rule mset_subset_member_absent [rotated])
    with lt show ?thesis by simp
  next
    case eq
    with "3.IH"(1) sx(1) sy(1) show ?thesis by simp
  next
    case gt
    with sy(2) have nx: "x \<notin># mset (y # ys)" by auto
    have "mset (y # ys) \<subseteq># mset (x # xs) \<longleftrightarrow> mset (y # ys) \<subseteq># mset xs"
      using mset_subset_drop_absent [OF nx, of "mset xs"]
        mset_subset_add_right [of "mset (y # ys)" "mset xs" x]
      by auto
    moreover from gt have "\<not> y < x" by (simp add: not_less less_imp_le)
    ultimately show ?thesis using gt "3.IH"(2) sx(1) "3.prems"(2) by simp
  qed
qed

lemma getSubLattice_mset:
  "getSubLattice l lp = filter (\<lambda>lq. mset (iterators lq) \<subseteq># mset (iterators lp)) l"
  by (simp add: getSubLattice_def Let_def std_includes_mset)

text \<open>
  What \<open>getSubLattice\<close> computes: sorting and \<^verbatim>\<open>std::includes\<close> compare the iterators
  with their multiplicity. This is the inclusion of the sets of iterators only for a point
  that repeats no iterator. A point of the lattice is always in its own sub-lattice.
\<close>

lemma getSubLattice_multiset_inclusion:
  "getSubLattice l p = filter (\<lambda>q. mset (iterators q) \<subseteq># mset (iterators p)) l
   \<and> (p \<in> set l \<longrightarrow> p \<in> set (getSubLattice l p) \<and> length (getSubLattice l p) \<ge> 1)
   \<and> (distinct (iterators q) \<longrightarrow>
        (mset (iterators q) \<subseteq># mset (iterators p) \<longleftrightarrow> set (iterators q) \<subseteq> set (iterators p)))"
proof (intro conjI impI)
  show eq: "getSubLattice l p = filter (\<lambda>q. mset (iterators q) \<subseteq># mset (iterators p)) l"
    by (rule getSubLattice_mset)
  show "p \<in> set (getSubLattice l p)" if "p \<in> set l"
    using that by (simp add: eq)
  then show "length (getSubLattice l p) \<ge> 1" if "p \<in> set l"
    using that by (cases "getSubLattice l p") auto
  show "mset (iterators q) \<subseteq># mset (iterators p) \<longleftrightarrow> set (iterators q) \<subseteq> set (iterators p)"
    if "distinct (iterators q)"
    using that by (rule distinct_mset_subset_iff)
qed

lemma exAddAMulAA:
  "make (Add (Read ''A'' [''i'']) (Mul (Read ''A'' [''i'']) (Read ''A'' [''i''])))
        ''i'' exSchedule exIters exDense = Inr [exThrice, exA, exTwice]"
  by (simp add: make_def Let_def exSchedule_def exIters_def exDense_def exA_def exTwice_def
      exThrice_def MergeLatticePoint3_def simplify_def defined_def disjunction_def
      disjunctionP_def conjunction_def conjunctionP_def allCombinations_def merge_def
      mergeItersAssertion_def getDenseIterators_def missingDenseIterator_def)

subsection \<open>The point algebra\<close>

text \<open>
  Claim C1. For two lattice points (values a constructor has returned) whose merge iterator
  lists are a single dense iterator or one or more sparse iterators, \<open>merge\<close> returns a
  point. Its iterators are those of \<open>a\<close> followed by those of \<open>b\<close>, its expression is the
  operator applied to both expressions, and its merge iterators are: both lists in a row
  when both heads are sparse, the list of \<open>a\<close> when both heads are dense, the list of the
  sparse side when one head is dense under a conjunctive operator, and the list of the
  dense side when one head is dense under a disjunctive operator.
\<close>

theorem merge_point_fields:
  assumes "constructed isDense a" and "constructed isDense b"
    and "mergeItersInvariant isDense (mergeIterators a)"
    and "mergeItersInvariant isDense (mergeIterators b)"
  shows "\<exists>p. merge isDense opr a b conjunctive = Inr p
     \<and> iterators p = iterators a @ iterators b
     \<and> expr p = opr (expr a) (expr b)
     \<and> mergeIterators p =
         (if \<not> isDense (mergeIterators a ! 0) \<and> \<not> isDense (mergeIterators b ! 0)
            then mergeIterators a @ mergeIterators b
          else if isDense (mergeIterators a ! 0) \<and> isDense (mergeIterators b ! 0)
            then mergeIterators a
          else if conjunctive
            then (if isDense (mergeIterators a ! 0) then mergeIterators b else mergeIterators a)
          else (if isDense (mergeIterators a ! 0) then mergeIterators a else mergeIterators b))"
proof -
  from assms have "wellFormed isDense a" "wellFormed isDense b"
    by (simp_all add: wellFormed_def)
  from merge_wellFormed [OF this, of opr conjunctive] show ?thesis
    unfolding mergedIters_def by blast
qed

theorem merge_point_fields_witness:
  "constructed exDense exA \<and> constructed exDense exD
   \<and> mergeItersInvariant exDense (mergeIterators exA)
   \<and> mergeItersInvariant exDense (mergeIterators exD)
   \<and> merge exDense Add exA exD False =
       Inr \<lparr>iterators = [1, 10], rangeIterators = [1], mergeIterators = [10],
            expr = Add (Read ''A'' [''i'']) (Read ''D'' [''i''])\<rparr>
   \<and> merge exDense Mul exA exD True =
       Inr \<lparr>iterators = [1, 10], rangeIterators = [1], mergeIterators = [1],
            expr = Mul (Read ''A'' [''i'']) (Read ''D'' [''i''])\<rparr>"
proof -
  have wf: "constructed exDense exA" "constructed exDense exD"
    "mergeItersInvariant exDense (mergeIterators exA)"
    "mergeItersInvariant exDense (mergeIterators exD)"
    using exA_wellFormed exD_wellFormed by (simp_all add: wellFormed_def)
  from merge_point_fields [OF wf, of Add False] obtain p where
    p: "merge exDense Add exA exD False = Inr p" "iterators p = [1, 10]"
       "mergeIterators p = [10]" "expr p = Add (Read ''A'' [''i'']) (Read ''D'' [''i''])"
    by (auto simp: exA_def exD_def exDense_def)
  from merge_point_fields [OF wf, of Mul True] obtain q where
    q: "merge exDense Mul exA exD True = Inr q" "iterators q = [1, 10]"
       "mergeIterators q = [1]" "expr q = Mul (Read ''A'' [''i'']) (Read ''D'' [''i''])"
    by (auto simp: exA_def exD_def exDense_def)
  have "rangeIterators p = [1]" "rangeIterators q = [1]"
    using p(1) q(1)
    by (auto simp: merge_def Let_def mergeItersAssertion_def getDenseIterators_def
        MergeLatticePoint3_def bindE_def simplify_def exA_def exD_def exDense_def)
  with p q wf show ?thesis by (cases p; cases q) simp
qed

text \<open>
  Claim C4. If the merge iterators of both operands of \<open>merge\<close> are a single dense iterator
  or one or more sparse iterators, so are the merge iterators of the point it returns; and
  so are those of every point of every lattice the builder returns for an expression, the
  lattices of the subexpressions included.
\<close>

theorem merge_iterators_invariant_preserved:
  "(mergeItersInvariant isDense (mergeIterators a) \<and> mergeItersInvariant isDense (mergeIterators b)
      \<and> merge isDense opr a b conjunctive = Inr p
      \<longrightarrow> mergeItersInvariant isDense (mergeIterators p))
   \<and> (buildLattice isDense indexVar schedule iters e = Inr l
      \<longrightarrow> list_all (\<lambda>q. mergeItersInvariant isDense (mergeIterators q)) l)"
proof (intro conjI impI)
  assume h: "mergeItersInvariant isDense (mergeIterators a)
      \<and> mergeItersInvariant isDense (mergeIterators b)
      \<and> merge isDense opr a b conjunctive = Inr p"
  then have inv: "mergeItersInvariant isDense (mergeIterators a)"
    "mergeItersInvariant isDense (mergeIterators b)" by simp_all
  from h have "MergeLatticePoint3 isDense (iterators a @ iterators b)
       (mergedIters isDense (mergeIterators a) (mergeIterators b) conjunctive)
       (opr (expr a) (expr b)) = Inr p"
    by (simp add: merge_unfold [OF inv])
  from MergeLatticePoint3_fields [OF this] mergedIters_invariant [OF inv, of conjunctive]
  show "mergeItersInvariant isDense (mergeIterators p)" by simp
next
  assume b: "buildLattice isDense indexVar schedule iters e = Inr l"
  with buildLattice_result [of e isDense indexVar schedule iters] have "latticeOK isDense l"
    by (cases "hasLiteral e") auto
  then show "list_all (\<lambda>q. mergeItersInvariant isDense (mergeIterators q)) l"
    by (simp add: latticeOK_def wellFormed_def list_all_iff)
qed

theorem merge_iterators_invariant_preserved_witness:
  "mergeItersInvariant exDense (mergeIterators exA)
   \<and> mergeItersInvariant exDense (mergeIterators exD)
   \<and> merge exDense Add exA exD False =
       Inr \<lparr>iterators = [1, 10], rangeIterators = [1], mergeIterators = [10],
            expr = Add (Read ''A'' [''i'']) (Read ''D'' [''i''])\<rparr>
   \<and> mergeItersInvariant exDense [10]
   \<and> buildLattice exDense ''i'' exSchedule exIters (Read ''D'' [''i'']) = Inr [exD]
   \<and> list_all (\<lambda>q. mergeItersInvariant exDense (mergeIterators q)) [exD]"
proof -
  let ?top = "\<lparr>iterators = [1, 10], rangeIterators = [1], mergeIterators = [10],
            expr = Add (Read ''A'' [''i'']) (Read ''D'' [''i''])\<rparr> :: nat MergeLatticePoint"
  have inv: "mergeItersInvariant exDense (mergeIterators exA)"
    "mergeItersInvariant exDense (mergeIterators exD)"
    using exA_wellFormed exD_wellFormed by (simp_all add: wellFormed_def)
  have b: "buildLattice exDense ''i'' exSchedule exIters (Read ''D'' [''i'']) = Inr [exD]"
    by (simp add: Let_def read_point exSchedule_def exIters_def exD_def)
  from merge_iterators_invariant_preserved
    [of exDense exA exD Add False ?top "''i''" exSchedule exIters "Read ''D'' [''i'']" "[exD]"]
    inv exMergeAD b
  show ?thesis by simp
qed

text \<open>
  Claim C10. \<open>merge\<close> reads element 0 of the merge iterators of both operands. The read is
  in bounds when both lists are non-empty. The two assertions before it accept the empty
  list, so a point of the two-argument constructor, whose merge iterators are empty,
  passes them and the read is out of bounds: \<open>merge\<close> reads out of bounds exactly when both
  assertions hold and one of the lists is empty.
\<close>

theorem merge_element0_in_bounds:
  "(mergeIterators a \<noteq> [] \<and> mergeIterators b \<noteq> []
      \<longrightarrow> merge isDense opr a b conjunctive \<noteq> Inl IndexOutOfBounds)
   \<and> mergeItersAssertion isDense []
   \<and> (MergeLatticePoint2 isDense its e = Inr a \<and> mergeItersAssertion isDense (mergeIterators b)
      \<longrightarrow> mergeIterators a = [] \<and> mergeItersAssertion isDense (mergeIterators a)
          \<and> merge isDense opr a b conjunctive = Inl IndexOutOfBounds)
   \<and> (MergeLatticePoint2 isDense its e = Inr b \<and> mergeItersAssertion isDense (mergeIterators a)
      \<longrightarrow> merge isDense opr a b conjunctive = Inl IndexOutOfBounds)
   \<and> (merge isDense opr a b conjunctive = Inl IndexOutOfBounds \<longleftrightarrow>
        mergeItersAssertion isDense (mergeIterators a)
        \<and> mergeItersAssertion isDense (mergeIterators b)
        \<and> (mergeIterators a = [] \<or> mergeIterators b = []))"
proof -
  have empty: "mergeItersAssertion isDense []"
    by (simp add: mergeItersAssertion_def getDenseIterators_def)
  have two: "mergeIterators q = []" if "MergeLatticePoint2 isDense its e = Inr q" for q
    using that by (auto simp: MergeLatticePoint2_def bindE_def split: sum.splits)
  have iff: "merge isDense opr a b conjunctive = Inl IndexOutOfBounds \<longleftrightarrow>
        mergeItersAssertion isDense (mergeIterators a)
        \<and> mergeItersAssertion isDense (mergeIterators b)
        \<and> (mergeIterators a = [] \<or> mergeIterators b = [])"
    by (auto simp: merge_def Let_def MergeLatticePoint3_def bindE_def simplify_def
        split: sum.splits if_splits)
  show ?thesis
    using empty two [of a] two [of b] unfolding iff by auto
qed

theorem merge_element0_in_bounds_witness:
  "MergeLatticePoint2 exDense [1] (Read ''A'' [''i'']) = Inr (exA\<lparr>mergeIterators := []\<rparr>)
   \<and> mergeItersAssertion exDense (mergeIterators exD)
   \<and> mergeItersAssertion exDense (mergeIterators (exA\<lparr>mergeIterators := []\<rparr>))
   \<and> merge exDense Add (exA\<lparr>mergeIterators := []\<rparr>) exD False = Inl IndexOutOfBounds
   \<and> merge exDense Add exD (exA\<lparr>mergeIterators := []\<rparr>) False = Inl IndexOutOfBounds
   \<and> mergeIterators exA \<noteq> [] \<and> mergeIterators exD \<noteq> []
   \<and> merge exDense Add exA exD False \<noteq> Inl IndexOutOfBounds"
proof -
  let ?a = "exA\<lparr>mergeIterators := []\<rparr>"
  have c: "MergeLatticePoint2 exDense [1] (Read ''A'' [''i'']) = Inr ?a"
    by (simp add: MergeLatticePoint2_def simplify_def exDense_def exA_def)
  have d: "mergeItersAssertion exDense (mergeIterators exD)"
    by (simp add: mergeItersAssertion_def exD_def)
  have ne: "mergeIterators exA \<noteq> []" "mergeIterators exD \<noteq> []"
    by (simp_all add: exA_def exD_def)
  from merge_element0_in_bounds [of ?a exD exDense Add False "[1]" "Read ''A'' [''i'']"] c d
  have 1: "mergeItersAssertion exDense (mergeIterators ?a)"
    "merge exDense Add ?a exD False = Inl IndexOutOfBounds" by blast+
  from merge_element0_in_bounds [of exD ?a exDense Add False "[1]" "Read ''A'' [''i'']"] c d
  have 2: "merge exDense Add exD ?a False = Inl IndexOutOfBounds" by blast
  from merge_element0_in_bounds [of exA exD exDense Add False "[1]" "Read ''A'' [''i'']"] ne
  have 3: "merge exDense Add exA exD False \<noteq> Inl IndexOutOfBounds" by blast
  from c d 1 2 3 ne show ?thesis by blast
qed

subsection \<open>The lattice algebra and the builder\<close>

text \<open>
  Claim C2. In every lattice that the builder returns, and in every lattice that the
  disjunction of two lattices returns, each dense iterator of the first point is among the
  iterators of every point: no point of the lattice drops a dense iterator of the top.
\<close>

theorem dense_iterators_never_dropped:
  "(make e indexVar schedule iters isDense = Inr l \<longrightarrow>
      (\<forall>d\<in>set (iterators (l ! 0)). isDense d \<longrightarrow> (\<forall>p\<in>set l. d \<in> set (iterators p))))
   \<and> (disjunction isDense opr a b = Inr l' \<longrightarrow>
      (\<forall>d\<in>set (iterators (l' ! 0)). isDense d \<longrightarrow> (\<forall>p\<in>set l'. d \<in> set (iterators p))))"
proof (intro conjI impI)
  assume "make e indexVar schedule iters isDense = Inr l"
  from make_result [OF this] have "denseKept isDense l" by (simp add: latticeOK_def)
  then show "\<forall>d\<in>set (iterators (l ! 0)). isDense d \<longrightarrow> (\<forall>p\<in>set l. d \<in> set (iterators p))"
    by (simp only: denseKept_iff)
next
  assume "disjunction isDense opr a b = Inr l'"
  from disjunction_denseKept [OF this]
  show "\<forall>d\<in>set (iterators (l' ! 0)). isDense d \<longrightarrow> (\<forall>p\<in>set l'. d \<in> set (iterators p))"
    by (simp only: denseKept_iff)
qed

theorem dense_iterators_never_dropped_witness:
  "make (Add (Read ''A'' [''i'']) (Read ''D'' [''i''])) ''i'' exSchedule exIters exDense =
     Inr [\<lparr>iterators = [1, 10], rangeIterators = [1], mergeIterators = [10],
            expr = Add (Read ''A'' [''i'']) (Read ''D'' [''i''])\<rparr>, exD]
   \<and> exDense 10
   \<and> list_all (\<lambda>p. 10 \<in> set (iterators p))
       [\<lparr>iterators = [1, 10], rangeIterators = [1], mergeIterators = [10],
            expr = Add (Read ''A'' [''i'']) (Read ''D'' [''i''])\<rparr>, exD]
   \<and> disjunction exDense Add [exA] [exD] =
     Inr [\<lparr>iterators = [1, 10], rangeIterators = [1], mergeIterators = [10],
            expr = Add (Read ''A'' [''i'']) (Read ''D'' [''i''])\<rparr>, exD]"
proof -
  let ?top = "\<lparr>iterators = [1, 10], rangeIterators = [1], mergeIterators = [10],
            expr = Add (Read ''A'' [''i'']) (Read ''D'' [''i''])\<rparr> :: nat MergeLatticePoint"
  have d: "disjunction exDense Add [exA] [exD] = Inr [?top, exD]"
    by (simp add: Let_def exDense_def exA_def exD_def
      MergeLatticePoint3_def simplify_def disjunction_def disjunctionP_def
      allCombinations_def merge_def mergeItersAssertion_def getDenseIterators_def
      missingDenseIterator_def)
  from dense_iterators_never_dropped
    [of "Add (Read ''A'' [''i'']) (Read ''D'' [''i''])" "''i''" exSchedule exIters exDense
        "[?top, exD]" Add "[exA]" "[exD]" "[?top, exD]"] exAddAD d
  have "\<forall>d\<in>set (iterators ([?top, exD] ! 0)). exDense d \<longrightarrow>
          (\<forall>p\<in>set [?top, exD]. d \<in> set (iterators p))" by blast
  moreover have "exDense 10" by (simp add: exDense_def)
  ultimately have "list_all (\<lambda>p. 10 \<in> set (iterators p)) [?top, exD]"
    by (simp add: exD_def)
  with exAddAD d \<open>exDense 10\<close> show ?thesis by blast
qed

text \<open>
  Claim C3. For \<open>A(i) + D(i)\<close> on the index variable \<open>i\<close>, where the iterator of \<open>A\<close> is
  sparse and that of \<open>D\<close> is dense, the builder returns two points in this order: the
  top, with both iterators, the dense one as its only merge iterator and the sum as its
  expression, and then the point of \<open>D\<close> alone. The point of \<open>A\<close> alone, which the
  read of \<open>A\<close> produces, misses the dense iterator and is pruned.
\<close>

theorem sparse_plus_dense_lattice:
  assumes "sA = iters (schedule (Read A [i]), locate (variables (schedule (Read A [i]))) i)"
    and "dD = iters (schedule (Read D [i]), locate (variables (schedule (Read D [i]))) i)"
    and "\<not> isDense sA" and "isDense dD"
  shows "make (Add (Read A [i]) (Read D [i])) i schedule iters isDense =
     Inr [\<lparr>iterators = [sA, dD], rangeIterators = [sA], mergeIterators = [dD],
            expr = Add (Read A [i]) (Read D [i])\<rparr>,
          \<lparr>iterators = [dD], rangeIterators = [dD], mergeIterators = [dD],
            expr = Read D [i]\<rparr>]
   \<and> buildLattice isDense i schedule iters (Read A [i]) =
     Inr [\<lparr>iterators = [sA], rangeIterators = [sA], mergeIterators = [sA],
            expr = Read A [i]\<rparr>]
   \<and> missingDenseIterator [dD]
        \<lparr>iterators = [sA], rangeIterators = [sA], mergeIterators = [sA], expr = Read A [i]\<rparr>"
proof -
  from assms(3,4) have ne: "sA \<noteq> dD" "dD \<noteq> sA" by auto
  have a: "buildLattice isDense i schedule iters (Read A [i]) =
     Inr [\<lparr>iterators = [sA], rangeIterators = [sA], mergeIterators = [sA],
            expr = Read A [i]\<rparr>]"
    by (simp add: Let_def read_point assms(1))
  have d: "buildLattice isDense i schedule iters (Read D [i]) =
     Inr [\<lparr>iterators = [dD], rangeIterators = [dD], mergeIterators = [dD],
            expr = Read D [i]\<rparr>]"
    by (simp add: Let_def read_point assms(2))
  have m: "make (Add (Read A [i]) (Read D [i])) i schedule iters isDense =
     Inr [\<lparr>iterators = [sA, dD], rangeIterators = [sA], mergeIterators = [dD],
            expr = Add (Read A [i]) (Read D [i])\<rparr>,
          \<lparr>iterators = [dD], rangeIterators = [dD], mergeIterators = [dD],
            expr = Read D [i]\<rparr>]"
    apply (simp only: make_def buildLattice.simps(4) a d)
    using assms(3,4) ne
    apply (simp add: Let_def MergeLatticePoint3_def simplify_def defined_def disjunction_def
      disjunctionP_def allCombinations_def merge_def mergeItersAssertion_def
      getDenseIterators_def missingDenseIterator_def)
    done
  have "missingDenseIterator [dD]
        \<lparr>iterators = [sA], rangeIterators = [sA], mergeIterators = [sA], expr = Read A [i]\<rparr>"
    using ne by (simp add: missingDenseIterator_def)
  with a m show ?thesis by blast
qed

theorem sparse_plus_dense_lattice_witness:
  "(1::nat) = exIters (exSchedule (Read ''A'' [''i'']),
       locate (variables (exSchedule (Read ''A'' [''i'']))) ''i'')
   \<and> (10::nat) = exIters (exSchedule (Read ''D'' [''i'']),
       locate (variables (exSchedule (Read ''D'' [''i'']))) ''i'')
   \<and> \<not> exDense 1 \<and> exDense 10
   \<and> make (Add (Read ''A'' [''i'']) (Read ''D'' [''i''])) ''i'' exSchedule exIters exDense =
     Inr [\<lparr>iterators = [1, 10], rangeIterators = [1], mergeIterators = [10],
            expr = Add (Read ''A'' [''i'']) (Read ''D'' [''i''])\<rparr>,
          \<lparr>iterators = [10], rangeIterators = [10], mergeIterators = [10],
            expr = Read ''D'' [''i'']\<rparr>]"
proof -
  have h: "(1::nat) = exIters (exSchedule (Read ''A'' [''i'']),
       locate (variables (exSchedule (Read ''A'' [''i'']))) ''i'')"
    "(10::nat) = exIters (exSchedule (Read ''D'' [''i'']),
       locate (variables (exSchedule (Read ''D'' [''i'']))) ''i'')"
    "\<not> exDense 1" "exDense 10"
    by (simp_all add: exIters_def exSchedule_def exDense_def)
  from sparse_plus_dense_lattice [OF h] h show ?thesis by blast
qed

text \<open>
  Claim C5. The disjunction of two lattices never fails its last assertion, and the
  lattice it returns is never empty. For two non-empty lattices of well-formed points it
  does return: the first point of the result is the disjunction of the first points of
  both lattices, its iterators are theirs in a row, and it misses none of the dense
  iterators the pruning looks for.
\<close>

theorem disjunction_nonempty:
  "disjunction isDense opr a b \<noteq> Inl (IAssert DisjunctionLatticeSize)
   \<and> (disjunction isDense opr a b = Inr l \<longrightarrow> l \<noteq> [])
   \<and> (a \<noteq> [] \<and> b \<noteq> [] \<and> list_all (wellFormed isDense) a \<and> list_all (wellFormed isDense) b
      \<longrightarrow> (\<exists>l top. disjunction isDense opr a b = Inr l \<and> l \<noteq> []
             \<and> disjunctionP isDense opr (a ! 0) (b ! 0) = Inr top \<and> l ! 0 = top
             \<and> iterators top = iterators (a ! 0) @ iterators (b ! 0)
             \<and> \<not> missingDenseIterator (getDenseIterators isDense (iterators top)) top))"
proof (intro conjI impI)
  show "disjunction isDense opr a b \<noteq> Inl (IAssert DisjunctionLatticeSize)"
    by (rule disjunction_never_pruned_empty)
next
  assume "disjunction isDense opr a b = Inr l"
  then show "l \<noteq> []"
    by (auto simp: disjunction_def bindE_def Let_def split: sum.splits if_splits)
next
  assume h: "a \<noteq> [] \<and> b \<noteq> [] \<and> list_all (wellFormed isDense) a
               \<and> list_all (wellFormed isDense) b"
  then have ne: "a \<noteq> []" "b \<noteq> []"
    and wf: "list_all (wellFormed isDense) a" "list_all (wellFormed isDense) b" by simp_all
  let ?Q = "\<lambda>(x, y) p. merge isDense opr x y False = Inr p
              \<and> iterators p = iterators x @ iterators y"
  from combinations_ok [OF wf, of opr False] obtain combined where
    c: "allCombinations (disjunctionP isDense opr) a b = Inr combined"
       "list_all2 ?Q (List.product a b) combined"
    by (auto simp: disjunctionP_def [abs_def])
  have cne: "combined \<noteq> []"
  proof
    assume "combined = []"
    with c(2) have "List.product a b = []" by (simp only: list_all2_Nil2)
    with product_nonempty [OF ne] show False by contradiction
  qed
  from list_all2_head [OF c(2) product_nonempty [OF ne]]
  have top: "disjunctionP isDense opr (a ! 0) (b ! 0) = Inr (combined ! 0)"
    "iterators (combined ! 0) = iterators (a ! 0) @ iterators (b ! 0)"
    by (simp_all add: product_head [OF ne] disjunctionP_def)
  let ?all = "combined @ a @ b"
  let ?ds = "getDenseIterators isDense (iterators (?all ! 0))"
  let ?l = "filter (\<lambda>point. \<not> missingDenseIterator ?ds point) ?all"
  have all_ne: "?all \<noteq> []" using cne by simp
  have all0: "?all ! 0 = combined ! 0" using cne by (simp add: nth_append)
  from disjunction_unfold [OF c(1) all_ne] have res: "disjunction isDense opr a b = Inr ?l" .
  have keep: "\<not> missingDenseIterator ?ds (?all ! 0)" by (rule not_missing_own)
  have l0: "?l ! 0 = combined ! 0"
    using filter_keeps_head [of ?all "\<lambda>point. \<not> missingDenseIterator ?ds point", OF all_ne keep]
    by (simp only: all0)
  from all_ne have "?all ! 0 \<in> set ?all" by (metis length_greater_0_conv nth_mem)
  with keep have lne: "?l \<noteq> []" by (auto simp: filter_empty_conv)
  from res lne top l0 not_missing_own [of isDense "combined ! 0"]
  show "\<exists>l top. disjunction isDense opr a b = Inr l \<and> l \<noteq> []
             \<and> disjunctionP isDense opr (a ! 0) (b ! 0) = Inr top \<and> l ! 0 = top
             \<and> iterators top = iterators (a ! 0) @ iterators (b ! 0)
             \<and> \<not> missingDenseIterator (getDenseIterators isDense (iterators top)) top"
    by blast
qed

theorem disjunction_nonempty_witness:
  "[exA] \<noteq> [] \<and> [exD] \<noteq> []
   \<and> list_all (wellFormed exDense) [exA] \<and> list_all (wellFormed exDense) [exD]
   \<and> disjunction exDense Add [exA] [exD] =
       Inr [\<lparr>iterators = [1, 10], rangeIterators = [1], mergeIterators = [10],
            expr = Add (Read ''A'' [''i'']) (Read ''D'' [''i''])\<rparr>, exD]
   \<and> disjunctionP exDense Add ([exA] ! 0) ([exD] ! 0) =
       Inr \<lparr>iterators = [1, 10], rangeIterators = [1], mergeIterators = [10],
            expr = Add (Read ''A'' [''i'']) (Read ''D'' [''i''])\<rparr>"
proof -
  let ?top = "\<lparr>iterators = [1, 10], rangeIterators = [1], mergeIterators = [10],
            expr = Add (Read ''A'' [''i'']) (Read ''D'' [''i''])\<rparr> :: nat MergeLatticePoint"
  have wf: "list_all (wellFormed exDense) [exA]" "list_all (wellFormed exDense) [exD]"
    using exA_wellFormed exD_wellFormed by simp_all
  from disjunction_nonempty [of exDense Add "[exA]" "[exD]" "[?top, exD]"] wf
  obtain l top where "disjunction exDense Add [exA] [exD] = Inr l"
    "disjunctionP exDense Add ([exA] ! 0) ([exD] ! 0) = Inr top" "l ! 0 = top"
    by auto
  with exDisjAD have "disjunctionP exDense Add ([exA] ! 0) ([exD] ! 0) = Inr ?top"
    by auto
  with wf exDisjAD show ?thesis by simp
qed

text \<open>
  Claim C7. A lattice that the conjunction of \<open>a\<close> and \<open>b\<close> returns has
  \<open>length a * length b\<close> points, and the point at position \<open>i * length b + j\<close> is the
  conjunction of the \<open>i\<close>-th point of \<open>a\<close> and the \<open>j\<close>-th point of \<open>b\<close>: \<open>a\<close> is the
  outer loop, \<open>b\<close> the inner one. For lattices of well-formed points the conjunction
  returns in both orders of the operands, with lattices of the same size.
\<close>

theorem conjunction_all_pairs:
  "(conjunction isDense opr a b = Inr l \<longrightarrow>
      length l = length a * length b
      \<and> (\<forall>i<length a. \<forall>j<length b.
            conjunctionP isDense opr (a ! i) (b ! j) = Inr (l ! (i * length b + j))))
   \<and> (list_all (wellFormed isDense) a \<and> list_all (wellFormed isDense) b \<longrightarrow>
      (\<exists>l1 l2. conjunction isDense opr a b = Inr l1 \<and> conjunction isDense opr b a = Inr l2
         \<and> length l1 = length a * length b \<and> length l2 = length l1))"
proof (intro conjI impI allI)
  assume "conjunction isDense opr a b = Inr l"
  then have all2: "list_all2 (\<lambda>(x, y) p. conjunctionP isDense opr x y = Inr p)
                     (List.product a b) l"
    unfolding conjunction_def allCombinations_product
    by (auto dest!: collect_list_all2 elim: list_all2_mono)
  from list_all2_lengthD [OF all2] show "length l = length a * length b" by simp
  fix i j assume "i < length a" "j < length b"
  from list_all2_product_nth [OF all2 this]
  show "conjunctionP isDense opr (a ! i) (b ! j) = Inr (l ! (i * length b + j))" by simp
next
  assume "list_all (wellFormed isDense) a \<and> list_all (wellFormed isDense) b"
  then have wf: "list_all (wellFormed isDense) a" "list_all (wellFormed isDense) b" by simp_all
  from combinations_ok [OF wf, of opr True] obtain l1 where
    l1: "conjunction isDense opr a b = Inr l1"
        "list_all2 (\<lambda>(x, y) p. merge isDense opr x y True = Inr p
                 \<and> iterators p = iterators x @ iterators y) (List.product a b) l1"
    by (auto simp: conjunction_def conjunctionP_def [abs_def])
  from combinations_ok [OF wf(2,1), of opr True] obtain l2 where
    l2: "conjunction isDense opr b a = Inr l2"
        "list_all2 (\<lambda>(x, y) p. merge isDense opr x y True = Inr p
                 \<and> iterators p = iterators x @ iterators y) (List.product b a) l2"
    by (auto simp: conjunction_def conjunctionP_def [abs_def])
  from list_all2_lengthD [OF l1(2)] list_all2_lengthD [OF l2(2)]
  have "length l1 = length a * length b" "length l2 = length l1"
    by (simp_all add: mult.commute)
  with l1(1) l2(1)
  show "\<exists>l1 l2. conjunction isDense opr a b = Inr l1 \<and> conjunction isDense opr b a = Inr l2
         \<and> length l1 = length a * length b \<and> length l2 = length l1" by blast
qed

theorem conjunction_all_pairs_witness:
  "list_all (wellFormed exDense) [exA, exD] \<and> list_all (wellFormed exDense) [exD]
   \<and> conjunction exDense Mul [exA, exD] [exD] =
     Inr [\<lparr>iterators = [1, 10], rangeIterators = [1], mergeIterators = [1],
            expr = Mul (Read ''A'' [''i'']) (Read ''D'' [''i''])\<rparr>,
          \<lparr>iterators = [10, 10], rangeIterators = [10], mergeIterators = [10],
            expr = Mul (Read ''D'' [''i'']) (Read ''D'' [''i''])\<rparr>]
   \<and> conjunctionP exDense Mul exD exD =
     Inr \<lparr>iterators = [10, 10], rangeIterators = [10], mergeIterators = [10],
            expr = Mul (Read ''D'' [''i'']) (Read ''D'' [''i''])\<rparr>
   \<and> (\<exists>l2. conjunction exDense Mul [exD] [exA, exD] = Inr l2 \<and> length l2 = 2)"
proof -
  let ?l = "[\<lparr>iterators = [1, 10], rangeIterators = [1], mergeIterators = [1],
            expr = Mul (Read ''A'' [''i'']) (Read ''D'' [''i''])\<rparr>,
          \<lparr>iterators = [10, 10], rangeIterators = [10], mergeIterators = [10],
            expr = Mul (Read ''D'' [''i'']) (Read ''D'' [''i''])\<rparr>] :: nat MergeLattice"
  have wf: "list_all (wellFormed exDense) [exA, exD]" "list_all (wellFormed exDense) [exD]"
    using exA_wellFormed exD_wellFormed by simp_all
  note t = conjunction_all_pairs [of exDense Mul "[exA, exD]" "[exD]" ?l]
  from t exConjADD
  have "\<forall>i<length [exA, exD]. \<forall>j<length [exD].
          conjunctionP exDense Mul ([exA, exD] ! i) ([exD] ! j) = Inr (?l ! (i * length [exD] + j))"
    by blast
  from this [rule_format, of 1 0]
  have p: "conjunctionP exDense Mul exD exD = Inr (?l ! 1)" by simp
  from t wf exConjADD
  have "\<exists>l2. conjunction exDense Mul [exD] [exA, exD] = Inr l2 \<and> length l2 = 2"
    by auto
  with wf exConjADD p show ?thesis by simp
qed

text \<open>
  Claim C9. If the expression contains an integer, single precision or double precision
  literal anywhere, the builder fails with the error of an unsupported construct and
  returns no lattice; no other failure comes first.
\<close>

theorem literal_not_supported:
  "(hasLiteral e \<longrightarrow> make e indexVar schedule iters isDense = Inl NotSupportedYet)
   \<and> make (IntImm n) indexVar schedule iters isDense = Inl NotSupportedYet
   \<and> make (FloatImm x) indexVar schedule iters isDense = Inl NotSupportedYet
   \<and> make (DoubleImm y) indexVar schedule iters isDense = Inl NotSupportedYet"
  using buildLattice_result [of e isDense indexVar schedule iters]
  by (simp add: make_def)

theorem literal_not_supported_witness:
  "hasLiteral (Mul (Add (Read ''A'' [''i'']) (Read ''D'' [''i''])) (Neg (IntImm 3)))
   \<and> make (Mul (Add (Read ''A'' [''i'']) (Read ''D'' [''i''])) (Neg (IntImm 3)))
        ''i'' exSchedule exIters exDense = Inl NotSupportedYet"
  using literal_not_supported
    [of "Mul (Add (Read ''A'' [''i'']) (Read ''D'' [''i''])) (Neg (IntImm 3))"
        "''i''" exSchedule exIters exDense]
  by simp

subsection \<open>Sub-lattices\<close>

text \<open>
  Claim C6. \<open>getSubLattice l p\<close> should hold exactly the points of \<open>l\<close> whose set of
  iterators is included in that of \<open>p\<close>, as the comment in the source says too. The code
  does not: in the lattice the builder returns for \<open>A(i) + A(i) * A(i)\<close>, where both reads
  of \<open>A\<close> have the same sparse iterator, the point \<open>exTwice\<close> has the iterators of \<open>exA\<close> as
  a set, and the sub-lattice of \<open>exA\<close> leaves it out, because it lists the iterator twice.
  The same holds for the lattice of \<open>exA\<close> and its conjunction with itself.
\<close>

theorem getSubLattice_drops_repeated_iterator:
  "make (Add (Read ''A'' [''i'']) (Mul (Read ''A'' [''i'']) (Read ''A'' [''i''])))
        ''i'' exSchedule exIters exDense = Inr [exThrice, exA, exTwice]
   \<and> exA \<in> set [exThrice, exA, exTwice] \<and> exTwice \<in> set [exThrice, exA, exTwice]
   \<and> set (iterators exTwice) \<subseteq> set (iterators exA)
   \<and> exTwice \<notin> set (getSubLattice [exThrice, exA, exTwice] exA)
   \<and> getSubLattice [exThrice, exA, exTwice] exA = [exA]
   \<and> conjunctionP exDense Mul exA exA = Inr exTwice
   \<and> getSubLattice [exA, exTwice] exA = [exA]"
proof -
  have "set (iterators exTwice) \<subseteq> set (iterators exA)"
    by (simp add: exA_def exTwice_def)
  moreover have "getSubLattice [exThrice, exA, exTwice] exA = [exA]"
    by (simp add: getSubLattice_def Let_def exA_def exTwice_def exThrice_def)
  moreover have "getSubLattice [exA, exTwice] exA = [exA]"
    by (simp add: getSubLattice_def Let_def exA_def exTwice_def)
  moreover have "exTwice \<noteq> exA"
    by (simp add: exA_def exTwice_def)
  moreover have "conjunctionP exDense Mul exA exA = Inr exTwice"
    by (simp add: Let_def exA_def exTwice_def exDense_def conjunctionP_def merge_def
        mergeItersAssertion_def getDenseIterators_def MergeLatticePoint3_def simplify_def)
  ultimately show ?thesis using exAddAMulAA by simp
qed

subsection \<open>The simplifier\<close>

text \<open>
  Claim C8. On a non-empty list \<open>simplify\<close> returns the sparse iterators in input order,
  or the list of the first iterator alone when every iterator is dense; so its result is
  never empty, and simplifying the result again changes nothing.
\<close>

theorem simplify_sparse_or_first:
  assumes "x \<noteq> []"
  shows "simplify isDense x =
           Inr (if list_all isDense x then [x ! 0] else filter (\<lambda>i. \<not> isDense i) x)
         \<and> (\<exists>y. simplify isDense x = Inr y \<and> y \<noteq> [] \<and> simplify isDense y = Inr y)"
proof -
  let ?s = "filter (\<lambda>i. \<not> isDense i) x"
  have all: "list_all isDense x \<longleftrightarrow> ?s = []"
    by (auto simp: list_all_iff filter_empty_conv)
  show ?thesis
  proof (cases "?s = []")
    case True
    with assms have "isDense (x ! 0)" by (cases x) (auto split: if_splits)
    with True assms all show ?thesis
      by (simp add: simplify_nonempty)
  next
    case False
    have "filter (\<lambda>i. \<not> isDense i) ?s = ?s" by simp
    with False assms all show ?thesis
      by (simp add: simplify_nonempty)
  qed
qed

theorem simplify_sparse_or_first_witness:
  "[1, 10, 2] \<noteq> ([] :: nat list)
   \<and> simplify exDense [1, 10, 2] = Inr [1, 2]
   \<and> simplify exDense [1, 2] = Inr [1, 2]
   \<and> simplify exDense [11, 10] = Inr [11]
   \<and> simplify exDense [11] = Inr [11]"
  using simplify_sparse_or_first [of "[1, 10, 2]" exDense]
    simplify_sparse_or_first [of "[11, 10]" exDense]
  by (simp add: exDense_def simplify_def)

end
